theory Spec2Isabelle
  imports Complex_Main
begin

section \<open>Data model\<close>

text \<open>
  The geometry column of a road segment, as far as \<open>generate_network_graph\<close> looks at
  it. \<open>NoGeometry\<close> is \<open>None\<close> (or any value with none of the attributes \<open>wkt\<close>,
  \<open>desc\<close>, \<open>coords\<close>, such as a plain string): the code skips the direction logic.
  \<open>Unparseable\<close> is a database element (or bytes) that the geometry library cannot load:
  loading raises. \<open>LineString cs\<close> is a value that loads to a line whose coordinate
  sequence is \<open>cs\<close>, each coordinate a (longitude, latitude) pair. Floats are modelled
  as reals throughout.
\<close>

datatype geometry = NoGeometry | Unparseable | LineString "(real \<times> real) list"

text \<open>A row of the query in \<open>generate_network_graph\<close>; every column is nullable.\<close>

record road_segment =
  source :: "int option"
  target :: "int option"
  capacity :: "real option"
  cost_time :: "real option"
  geom :: geometry
  road_name :: "string option"

text \<open>An edge of the directed graph with its two attributes, \<open>capacity\<close> and \<open>cost\<close>.\<close>

record edge =
  eu :: int
  ev :: int
  cap :: real
  cost :: "real option"

text \<open>
  The directed graph of the graph library: nodes and edges in insertion order. The
  library keeps one attribute dictionary per ordered pair; here that is a property of
  the list of edges, proved below for the graphs the builder returns.
\<close>

record graph =
  nodes :: "int list"
  edges :: "edge list"

datatype error = GeometryError | IndexError

section \<open>Graph operations\<close>

definition empty_graph :: graph where
  "empty_graph = \<lparr>nodes = [], edges = []\<rparr>"

definition is_edge :: "int \<Rightarrow> int \<Rightarrow> edge \<Rightarrow> bool" where
  "is_edge u v e = (eu e = u \<and> ev e = v)"

definition has_edge :: "graph \<Rightarrow> int \<Rightarrow> int \<Rightarrow> bool" where
  "has_edge G u v = (find (is_edge u v) (edges G) \<noteq> None)"

definition has_node :: "graph \<Rightarrow> int \<Rightarrow> bool" where
  "has_node G n = (n \<in> set (nodes G))"

definition number_of_nodes :: "graph \<Rightarrow> nat" where
  "number_of_nodes G = length (nodes G)"

definition number_of_edges :: "graph \<Rightarrow> nat" where
  "number_of_edges G = length (edges G)"

definition add_node :: "int \<Rightarrow> int list \<Rightarrow> int list" where
  "add_node n ns = (if n \<in> set ns then ns else ns @ [n])"

text \<open>
  \<open>G.add_edge(u, v, capacity=c, cost=k)\<close>: both endpoints become nodes when they are
  not yet, \<open>u\<close> first; a new edge is appended, an existing one has both attributes
  overwritten.
\<close>

definition add_edge :: "graph \<Rightarrow> int \<Rightarrow> int \<Rightarrow> real \<Rightarrow> real option \<Rightarrow> graph" where
  "add_edge G u v c k =
     \<lparr>nodes = add_node v (add_node u (nodes G)),
      edges = (if has_edge G u v
               then map (\<lambda>e. if is_edge u v e then e\<lparr>cap := c, cost := k\<rparr> else e) (edges G)
               else edges G @ [\<lparr>eu = u, ev = v, cap = c, cost = k\<rparr>])\<rparr>"

text \<open>\<open>G[u][v]['capacity'] += c\<close>, used only when the edge exists.\<close>

definition add_capacity :: "graph \<Rightarrow> int \<Rightarrow> int \<Rightarrow> real \<Rightarrow> graph" where
  "add_capacity G u v c =
     G\<lparr>edges := map (\<lambda>e. if is_edge u v e then e\<lparr>cap := cap e + c\<rparr> else e) (edges G)\<rparr>"

definition edge_capacity :: "graph \<Rightarrow> int \<Rightarrow> int \<Rightarrow> real option" where
  "edge_capacity G u v = map_option cap (find (is_edge u v) (edges G))"

definition edge_cost :: "graph \<Rightarrow> int \<Rightarrow> int \<Rightarrow> real option option" where
  "edge_cost G u v = map_option cost (find (is_edge u v) (edges G))"

section \<open>Strings\<close>

text \<open>\<open>str.upper\<close> and the substring test \<open>in\<close>, on ASCII strings.\<close>

definition upper_char :: "char \<Rightarrow> char" where
  "upper_char c =
     (case map_of (zip ''abcdefghijklmnopqrstuvwxyz'' ''ABCDEFGHIJKLMNOPQRSTUVWXYZ'') c of
        None \<Rightarrow> c
      | Some d \<Rightarrow> d)"

definition upper :: "string \<Rightarrow> string" where
  "upper s = map upper_char s"

fun starts_with :: "string \<Rightarrow> string \<Rightarrow> bool" where
  "starts_with [] s = True"
| "starts_with (p # ps) [] = False"
| "starts_with (p # ps) (c # cs) = (p = c \<and> starts_with ps cs)"

fun contains :: "string \<Rightarrow> string \<Rightarrow> bool" where
  "contains p [] = (p = [])"
| "contains p (c # cs) = (starts_with p (c # cs) \<or> contains p cs)"

section \<open>The graph builder\<close>

text \<open>\<open>capacity = seg.capacity if seg.capacity else 1800.0\<close>: \<open>None\<close> and zero are falsy.\<close>

definition resolve_capacity :: "real option \<Rightarrow> real" where
  "resolve_capacity c = (case c of None \<Rightarrow> 1800 | Some x \<Rightarrow> if x \<noteq> 0 then x else 1800)"

text \<open>
  The two loading lines and the \<open>hasattr(line, 'coords')\<close> test: the coordinate list
  when there is one, \<open>None\<close> when the direction logic is skipped, an error when loading
  raises.
\<close>

definition load_coords :: "geometry \<Rightarrow> error + (real \<times> real) list option" where
  "load_coords g =
     (case g of
        NoGeometry \<Rightarrow> Inr None
      | Unparseable \<Rightarrow> Inl GeometryError
      | LineString cs \<Rightarrow> Inr (Some cs))"

text \<open>The region table, from the heading \<open>(dx, dy)\<close> of a major highway.\<close>

definition should_reverse :: "string \<Rightarrow> real \<Rightarrow> real \<Rightarrow> bool" where
  "should_reverse region dx dy =
     (let is_sb = dy < 0; is_wb = dx < 0; is_eb = dx > 0; r = upper region in
      if contains ''TAMPA'' r \<or> contains ''SARASOTA'' r then is_sb \<or> is_wb
      else if contains ''ORLANDO'' r \<or> contains ''DAYTONA'' r \<or> contains ''LAKELAND'' r
        then is_sb \<or> is_wb
      else if contains ''MIAMI'' r \<or> contains ''SOUTH FL'' r \<or> contains ''PORT ST. LUCIE'' r
              \<or> contains ''MELBOURNE'' r
        then is_sb \<or> is_eb
      else if contains ''CAPE CORAL'' r \<or> contains ''NAPLES'' r \<or> contains ''FORT MYERS'' r
        then is_sb \<or> is_eb
      else if contains ''JACKSONVILLE'' r then is_sb \<or> is_eb
      else if contains ''TALLAHASSEE'' r \<or> contains ''PENSACOLA'' r then is_sb \<or> is_eb
      else is_sb)"

text \<open>
  The contraflow block for one segment with endpoints \<open>(u, v)\<close>: the pair the edge is
  inserted under. \<open>coords[0]\<close> raises on an empty coordinate list.
\<close>

definition orient :: "string \<Rightarrow> string \<Rightarrow> road_segment \<Rightarrow> int \<Rightarrow> int \<Rightarrow> error + (int \<times> int)" where
  "orient scenario region seg u v =
     (case road_name seg of
        None \<Rightarrow> Inr (u, v)
      | Some rn \<Rightarrow>
          if scenario = ''contraflow'' \<and> rn \<noteq> [] \<and> contains ''MAJOR HWY'' (upper rn) then
            (case load_coords (geom seg) of
               Inl e \<Rightarrow> Inl e
             | Inr None \<Rightarrow> Inr (u, v)
             | Inr (Some cs) \<Rightarrow>
                 (case cs of
                    [] \<Rightarrow> Inl IndexError
                  | start_p # _ \<Rightarrow>
                      (let end_p = last cs;
                           dx = fst end_p - fst start_p;
                           dy = snd end_p - snd start_p
                       in if should_reverse region dx dy then Inr (v, u) else Inr (u, v))))
          else Inr (u, v))"

text \<open>The last four lines of the loop body: accumulate into the edge or create it.\<close>

definition insert_edge :: "graph \<Rightarrow> int \<Rightarrow> int \<Rightarrow> real \<Rightarrow> real option \<Rightarrow> graph" where
  "insert_edge G u v c k = (if has_edge G u v then add_capacity G u v c else add_edge G u v c k)"

text \<open>
  Where a segment's edge goes: \<open>None\<close> for a segment the loop skips, the oriented pair
  otherwise.
\<close>

definition edge_of :: "string \<Rightarrow> string \<Rightarrow> road_segment \<Rightarrow> error + (int \<times> int) option" where
  "edge_of scenario region seg =
     (case (source seg, target seg) of
        (Some u, Some v) \<Rightarrow>
          (case orient scenario region seg u v of Inl e \<Rightarrow> Inl e | Inr p \<Rightarrow> Inr (Some p))
      | _ \<Rightarrow> Inr None)"

text \<open>One iteration of the loop.\<close>

definition add_segment :: "string \<Rightarrow> string \<Rightarrow> graph \<Rightarrow> road_segment \<Rightarrow> error + graph" where
  "add_segment scenario region G seg =
     (case edge_of scenario region seg of
        Inl e \<Rightarrow> Inl e
      | Inr None \<Rightarrow> Inr G
      | Inr (Some (u, v)) \<Rightarrow>
          Inr (insert_edge G u v (resolve_capacity (capacity seg)) (cost_time seg)))"

fun build_loop :: "string \<Rightarrow> string \<Rightarrow> graph \<Rightarrow> road_segment list \<Rightarrow> error + graph" where
  "build_loop scenario region G [] = Inr G"
| "build_loop scenario region G (seg # segs) =
     (case add_segment scenario region G seg of
        Inl e \<Rightarrow> Inl e
      | Inr G' \<Rightarrow> build_loop scenario region G' segs)"

text \<open>The rows of the query are the first argument.\<close>

definition generate_network_graph :: "road_segment list \<Rightarrow> string \<Rightarrow> string \<Rightarrow> error + graph" where
  "generate_network_graph segments scenario region = build_loop scenario region empty_graph segments"

text \<open>
  Vocabulary for the statements about the builder: the capacity an ordered pair carries
  before a segment is processed (nothing when there is no edge yet), the segments of a
  list whose edge goes to a given ordered pair, and what they contribute.
\<close>

definition edge_key :: "edge \<Rightarrow> int \<times> int" where
  "edge_key e = (eu e, ev e)"

definition prior_capacity :: "graph \<Rightarrow> int \<Rightarrow> int \<Rightarrow> real" where
  "prior_capacity G u v = (case edge_capacity G u v of None \<Rightarrow> 0 | Some c \<Rightarrow> c)"

definition maps_to :: "string \<Rightarrow> string \<Rightarrow> int \<Rightarrow> int \<Rightarrow> road_segment \<Rightarrow> bool" where
  "maps_to scenario region u v seg = (edge_of scenario region seg = Inr (Some (u, v)))"

definition contributions :: "string \<Rightarrow> string \<Rightarrow> int \<Rightarrow> int \<Rightarrow> road_segment list \<Rightarrow> real list" where
  "contributions scenario region u v segs =
     map (\<lambda>s. resolve_capacity (capacity s)) (filter (maps_to scenario region u v) segs)"

text \<open>
  A geometry the direction logic can use without raising, and the segments the
  direction logic looks at: both endpoints present, contraflow scenario, a non-empty
  road name with the major-highway marker.
\<close>

definition geometry_usable :: "geometry \<Rightarrow> bool" where
  "geometry_usable g =
     (case g of NoGeometry \<Rightarrow> True | Unparseable \<Rightarrow> False | LineString cs \<Rightarrow> cs \<noteq> [])"

definition reversal_eligible :: "string \<Rightarrow> road_segment \<Rightarrow> bool" where
  "reversal_eligible scenario seg =
     (scenario = ''contraflow'' \<and> source seg \<noteq> None \<and> target seg \<noteq> None \<and>
      (case road_name seg of
         None \<Rightarrow> False
       | Some rn \<Rightarrow> rn \<noteq> [] \<and> contains ''MAJOR HWY'' (upper rn)))"

text \<open>
  The capacity rule in the specification's words, for comparison with
  \<open>resolve_capacity\<close>: the segment's capacity if positive, else 1800.
\<close>

definition spec_capacity :: "real option \<Rightarrow> real" where
  "spec_capacity c = (case c of None \<Rightarrow> 1800 | Some x \<Rightarrow> if 0 < x then x else 1800)"

section \<open>The flow solver\<close>

text \<open>
  An exception of a library call, by its message. The maximum-flow routine of the graph
  library is not part of the repository: \<open>calculate_max_flow\<close> takes it as its first
  argument, returning either an exception or the flow value.
\<close>

type_synonym exn = string

definition calculate_max_flow ::
    "(graph \<Rightarrow> int \<Rightarrow> int \<Rightarrow> exn + real) \<Rightarrow> graph \<Rightarrow> int \<Rightarrow> int \<Rightarrow> real" where
  "calculate_max_flow maximum_flow_value G source_node sink_node =
     (if \<not> has_node G source_node \<or> \<not> has_node G sink_node then 0
      else (case maximum_flow_value G source_node sink_node of
              Inr flow_value \<Rightarrow> flow_value
            | Inl e \<Rightarrow> 0))"

subsection \<open>What the library routine computes\<close>

text \<open>
  The library routes flow over the edges with a positive capacity that are not
  self-loops. A flow gives each such edge an amount between 0 and its capacity, nothing
  to the other edges, and conserves flow at every node other than source and sink. Its
  value is what leaves the source minus what enters it. The routine's contract: it
  raises, or it returns the largest value a flow can have.
\<close>

definition usable :: "edge \<Rightarrow> bool" where
  "usable e = (eu e \<noteq> ev e \<and> 0 < cap e)"

definition outflow :: "graph \<Rightarrow> (edge \<Rightarrow> real) \<Rightarrow> int \<Rightarrow> real" where
  "outflow G f n = sum_list (map (\<lambda>e. if eu e = n then f e else 0) (edges G))"

definition inflow :: "graph \<Rightarrow> (edge \<Rightarrow> real) \<Rightarrow> int \<Rightarrow> real" where
  "inflow G f n = sum_list (map (\<lambda>e. if ev e = n then f e else 0) (edges G))"

definition is_flow :: "graph \<Rightarrow> int \<Rightarrow> int \<Rightarrow> (edge \<Rightarrow> real) \<Rightarrow> bool" where
  "is_flow G s t f =
     ((\<forall>e\<in>set (edges G). if usable e then 0 \<le> f e \<and> f e \<le> cap e else f e = 0) \<and>
      (\<forall>n. n \<noteq> s \<and> n \<noteq> t \<longrightarrow> inflow G f n = outflow G f n))"

definition net_outflow :: "graph \<Rightarrow> (edge \<Rightarrow> real) \<Rightarrow> int \<Rightarrow> real" where
  "net_outflow G f s = outflow G f s - inflow G f s"

definition is_max_flow_value :: "graph \<Rightarrow> int \<Rightarrow> int \<Rightarrow> real \<Rightarrow> bool" where
  "is_max_flow_value G s t x =
     ((\<exists>f. is_flow G s t f \<and> net_outflow G f s = x) \<and>
      (\<forall>f. is_flow G s t f \<longrightarrow> net_outflow G f s \<le> x))"

definition library_contract :: "graph \<Rightarrow> int \<Rightarrow> int \<Rightarrow> exn + real \<Rightarrow> bool" where
  "library_contract G s t r = (case r of Inl e \<Rightarrow> True | Inr x \<Rightarrow> is_max_flow_value G s t x)"

text \<open>The sum of the capacities of the edges leaving a node, and directed reachability.\<close>

definition out_capacity :: "graph \<Rightarrow> int \<Rightarrow> real" where
  "out_capacity G n = sum_list (map cap (filter (\<lambda>e. eu e = n) (edges G)))"

definition reachable :: "graph \<Rightarrow> int \<Rightarrow> int \<Rightarrow> bool" where
  "reachable G s t = ((s, t) \<in> (set (map edge_key (edges G)))\<^sup>*)"

text \<open>
  The nodes a flow can touch, each once: a given node and the endpoints of the edges.
\<close>

definition node_universe :: "graph \<Rightarrow> int \<Rightarrow> int list" where
  "node_universe G s = remdups (s # map eu (edges G) @ map ev (edges G))"

section \<open>The simulation request\<close>

text \<open>The derived metrics of \<open>run_simulation\<close>, and \<open>round(x, 2)\<close> (ties to even).\<close>

definition gridlock_risk :: "real \<Rightarrow> string" where
  "gridlock_risk flow_value = (if flow_value < 1000 then ''CRITICAL'' else ''MODERATE'')"

definition clearance_time_hours :: "real \<Rightarrow> real" where
  "clearance_time_hours flow_value = (if flow_value > 0 then 1000000 / flow_value else 24)"

definition round2 :: "real \<Rightarrow> real" where
  "round2 x =
     (let y = x * 100; fl = \<lfloor>y\<rfloor>; r = y - of_int fl
      in of_int (if r < 1 / 2 then fl else if 1 / 2 < r then fl + 1
                 else if even fl then fl else fl + 1) / 100)"

record response =
  r_scenario :: string
  r_max_throughput_vph :: real
  r_clearance_time_hours :: real
  r_gridlock_risk :: string
  r_graph_size :: "nat \<times> nat"

datatype http_exception = HTTPException nat string

text \<open>
  How a request ends: a response, an \<open>HTTPException\<close> raised by the handler, or an
  exception of the graph builder, which the handler does not catch.
\<close>

datatype outcome = Returned response | Raised http_exception | Unhandled error

text \<open>
  The library calls of the handler, each raising or returning: connectivity, the
  subgraph of the largest weakly connected component, the enumeration of the nodes
  reachable from a node, the \<open>i\<close>-th draw of \<open>random.choice\<close>, and the maximum flow.
\<close>

record library =
  is_weakly_connected :: "graph \<Rightarrow> exn + bool"
  largest_component :: "graph \<Rightarrow> exn + graph"
  descendants :: "graph \<Rightarrow> int \<Rightarrow> exn + int list"
  random_choice :: "nat \<Rightarrow> int list \<Rightarrow> exn + int"
  maximum_flow_value :: "graph \<Rightarrow> int \<Rightarrow> int \<Rightarrow> exn + real"

text \<open>The trials of the selection loop: \<open>k\<close> trials left, \<open>i\<close> draws made so far.\<close>

fun trials :: "library \<Rightarrow> graph \<Rightarrow> int list \<Rightarrow> nat \<Rightarrow> nat \<Rightarrow> exn + (int \<times> int) option" where
  "trials L G ns i 0 = Inr None"
| "trials L G ns i (Suc k) =
     (case random_choice L i ns of
        Inl e \<Rightarrow> Inl e
      | Inr candidate_source \<Rightarrow>
          (case descendants L G candidate_source of
             Inl e \<Rightarrow> Inl e
           | Inr ds \<Rightarrow>
               if 50 < length ds then Inr (Some (candidate_source, last ds))
               else trials L G ns (Suc i) k))"

text \<open>
  The body of the \<open>try\<close> block: the graph that is solved and the two endpoints. The
  empty graph raises the 404; any exception of a library call (or of indexing an empty
  node list) becomes the 500.
\<close>

definition select_endpoints :: "library \<Rightarrow> graph \<Rightarrow> http_exception + (graph \<times> int \<times> int)" where
  "select_endpoints L G =
     (if number_of_nodes G = 0 then Inl (HTTPException 404 ''Graph is empty. ETL failed?'')
      else
        (case (case is_weakly_connected L G of
                 Inl e \<Rightarrow> Inl e
               | Inr c \<Rightarrow> if \<not> c then largest_component L G else Inr G) of
           Inl e \<Rightarrow> Inl (HTTPException 500 (''Graph error: '' @ e))
         | Inr subgraph \<Rightarrow>
             (case trials L subgraph (nodes subgraph) 0 10 of
                Inl e \<Rightarrow> Inl (HTTPException 500 (''Graph error: '' @ e))
              | Inr (Some (s, t)) \<Rightarrow> Inr (subgraph, s, t)
              | Inr None \<Rightarrow>
                  (case nodes subgraph of
                     [] \<Rightarrow> Inl (HTTPException 500 (''Graph error: '' @ ''list index out of range''))
                   | n # _ \<Rightarrow> Inr (subgraph, n, last (nodes subgraph))))))"

text \<open>
  The handler: the cached response when there is one, otherwise graph, endpoints, flow
  and metrics.
\<close>

definition run_simulation ::
    "library \<Rightarrow> response option \<Rightarrow> road_segment list \<Rightarrow> string \<Rightarrow> string \<Rightarrow> outcome" where
  "run_simulation L cached_result segments scenario region =
     (case cached_result of
        Some r \<Rightarrow> Returned r
      | None \<Rightarrow>
          (case generate_network_graph segments scenario region of
             Inl e \<Rightarrow> Unhandled e
           | Inr graph \<Rightarrow>
               (case select_endpoints L graph of
                  Inl h \<Rightarrow> Raised h
                | Inr (subgraph, source_node, sink_node) \<Rightarrow>
                    (let flow_value =
                           calculate_max_flow (maximum_flow_value L) subgraph source_node sink_node
                     in Returned
                          \<lparr>r_scenario = scenario,
                           r_max_throughput_vph = flow_value,
                           r_clearance_time_hours = round2 (clearance_time_hours flow_value),
                           r_gridlock_risk = gridlock_risk flow_value,
                           r_graph_size = (number_of_nodes subgraph, number_of_edges subgraph)\<rparr>))))"

text \<open>
  One library to run examples with: every graph counts as connected, no node has
  descendants, \<open>random.choice\<close> takes the first node, and the flow is 5400.
\<close>

definition library0 :: library where
  "library0 =
     \<lparr>is_weakly_connected = (\<lambda>G. Inr True),
      largest_component = (\<lambda>G. Inr G),
      descendants = (\<lambda>G n. Inr []),
      random_choice = (\<lambda>i ns. Inr (hd ns)),
      maximum_flow_value = (\<lambda>G s t. Inr 5400)\<rparr>"

section \<open>Lemmas on edge insertion and the loop\<close>

lemma find_map_same:
  assumes "\<And>e. is_edge u v (f e) = is_edge u v e"
  shows "find (is_edge u v) (map (\<lambda>e. if is_edge u v e then f e else e) es)
           = map_option f (find (is_edge u v) es)"
  using assms by (induction es) auto

lemma find_map_other:
  assumes "(u', v') \<noteq> (u, v)" and "\<And>e. edge_key (f e) = edge_key e"
  shows "find (is_edge u' v') (map (\<lambda>e. if is_edge u v e then f e else e) es)
           = find (is_edge u' v') es"
  using assms by (induction es) (auto simp: is_edge_def edge_key_def)

lemma find_append_new:
  "find P (es @ [e]) = (case find P es of None \<Rightarrow> (if P e then Some e else None) | Some x \<Rightarrow> Some x)"
  by (induction es) auto

lemma edge_capacity_insert_same:
  "edge_capacity (insert_edge G u v c k) u v = Some (prior_capacity G u v + c)"
proof (cases "has_edge G u v")
  case True
  then obtain e where e: "find (is_edge u v) (edges G) = Some e"
    by (auto simp: has_edge_def)
  have "find (is_edge u v) (map (\<lambda>e. if is_edge u v e then e\<lparr>cap := cap e + c\<rparr> else e) (edges G))
          = map_option (\<lambda>e. e\<lparr>cap := cap e + c\<rparr>) (find (is_edge u v) (edges G))"
    by (rule find_map_same) (simp add: is_edge_def)
  with True e show ?thesis
    by (simp add: insert_edge_def add_capacity_def edge_capacity_def prior_capacity_def)
next
  case False
  then have "find (is_edge u v) (edges G) = None"
    by (simp add: has_edge_def)
  with False show ?thesis
    by (simp add: insert_edge_def add_edge_def edge_capacity_def prior_capacity_def
        find_append_new is_edge_def)
qed

lemma edge_capacity_insert_other:
  assumes "(u', v') \<noteq> (u, v)"
  shows "edge_capacity (insert_edge G u v c k) u' v' = edge_capacity G u' v'"
proof (cases "has_edge G u v")
  case True
  have "find (is_edge u' v') (map (\<lambda>e. if is_edge u v e then e\<lparr>cap := cap e + c\<rparr> else e) (edges G))
          = find (is_edge u' v') (edges G)"
    by (rule find_map_other [OF assms]) (simp add: edge_key_def)
  with True show ?thesis
    by (simp add: insert_edge_def add_capacity_def edge_capacity_def)
next
  case False
  with assms show ?thesis
    by (auto simp: insert_edge_def add_edge_def edge_capacity_def find_append_new is_edge_def
        split: option.splits)
qed

lemma edge_cost_insert_same:
  "edge_cost (insert_edge G u v c k) u v
     = (case edge_cost G u v of None \<Rightarrow> Some k | Some k0 \<Rightarrow> Some k0)"
proof (cases "has_edge G u v")
  case True
  then obtain e where e: "find (is_edge u v) (edges G) = Some e"
    by (auto simp: has_edge_def)
  have "find (is_edge u v) (map (\<lambda>e. if is_edge u v e then e\<lparr>cap := cap e + c\<rparr> else e) (edges G))
          = map_option (\<lambda>e. e\<lparr>cap := cap e + c\<rparr>) (find (is_edge u v) (edges G))"
    by (rule find_map_same) (simp add: is_edge_def)
  with True e show ?thesis
    by (simp add: insert_edge_def add_capacity_def edge_cost_def)
next
  case False
  then have "find (is_edge u v) (edges G) = None"
    by (simp add: has_edge_def)
  with False show ?thesis
    by (simp add: insert_edge_def add_edge_def edge_cost_def find_append_new is_edge_def)
qed

lemma edge_cost_insert_other:
  assumes "(u', v') \<noteq> (u, v)"
  shows "edge_cost (insert_edge G u v c k) u' v' = edge_cost G u' v'"
proof (cases "has_edge G u v")
  case True
  have "find (is_edge u' v') (map (\<lambda>e. if is_edge u v e then e\<lparr>cap := cap e + c\<rparr> else e) (edges G))
          = find (is_edge u' v') (edges G)"
    by (rule find_map_other [OF assms]) (simp add: edge_key_def)
  with True show ?thesis
    by (simp add: insert_edge_def add_capacity_def edge_cost_def)
next
  case False
  with assms show ?thesis
    by (auto simp: insert_edge_def add_edge_def edge_cost_def find_append_new is_edge_def
        split: option.splits)
qed

lemma insert_edge_distinct:
  assumes "distinct (map edge_key (edges G))"
  shows "distinct (map edge_key (edges (insert_edge G u v c k)))"
proof (cases "has_edge G u v")
  case True
  have "map edge_key (map (\<lambda>e. if is_edge u v e then e\<lparr>cap := cap e + c\<rparr> else e) (edges G))
          = map edge_key (edges G)"
    by (simp add: edge_key_def)
  with True assms show ?thesis
    by (simp add: insert_edge_def add_capacity_def del: map_map)
next
  case False
  then have "\<forall>e\<in>set (edges G). \<not> is_edge u v e"
    by (simp add: has_edge_def find_None_iff)
  then have "(u, v) \<notin> set (map edge_key (edges G))"
    by (auto simp: is_edge_def edge_key_def)
  with False assms show ?thesis
    by (simp add: insert_edge_def add_edge_def edge_key_def)
qed

lemma add_segment_cases:
  assumes "add_segment sc rg G seg = Inr G'"
  shows "(edge_of sc rg seg = Inr None \<and> G' = G) \<or>
         (\<exists>u v. edge_of sc rg seg = Inr (Some (u, v)) \<and>
                 G' = insert_edge G u v (resolve_capacity (capacity seg)) (cost_time seg))"
  using assms by (auto simp: add_segment_def split: sum.splits option.splits)

lemma build_loop_distinct:
  "build_loop sc rg G segs = Inr G' \<Longrightarrow> distinct (map edge_key (edges G))
     \<Longrightarrow> distinct (map edge_key (edges G'))"
proof (induction segs arbitrary: G)
  case Nil
  then show ?case by simp
next
  case (Cons seg segs)
  from Cons.prems(1) obtain G1 where G1: "add_segment sc rg G seg = Inr G1"
    and rest: "build_loop sc rg G1 segs = Inr G'"
    by (auto split: sum.splits)
  from add_segment_cases [OF G1] Cons.prems(2) have "distinct (map edge_key (edges G1))"
    by (auto intro: insert_edge_distinct)
  with Cons.IH rest show ?case by blast
qed

lemma build_loop_capacity:
  "build_loop sc rg G segs = Inr G' \<Longrightarrow>
     edge_capacity G' u v =
       (if contributions sc rg u v segs = [] then edge_capacity G u v
        else Some (prior_capacity G u v + sum_list (contributions sc rg u v segs)))"
proof (induction segs arbitrary: G)
  case Nil
  then show ?case by (simp add: contributions_def)
next
  case (Cons seg segs)
  from Cons.prems obtain G1 where G1: "add_segment sc rg G seg = Inr G1"
    and rest: "build_loop sc rg G1 segs = Inr G'"
    by (auto split: sum.splits)
  note IH = Cons.IH [OF rest]
  show ?case
  proof (cases "maps_to sc rg u v seg")
    case True
    then have eo: "edge_of sc rg seg = Inr (Some (u, v))" by (simp add: maps_to_def)
    with G1 have G1_eq: "G1 = insert_edge G u v (resolve_capacity (capacity seg)) (cost_time seg)"
      by (simp add: add_segment_def)
    have c1: "edge_capacity G1 u v = Some (prior_capacity G u v + resolve_capacity (capacity seg))"
      unfolding G1_eq by (rule edge_capacity_insert_same)
    then have p1: "prior_capacity G1 u v = prior_capacity G u v + resolve_capacity (capacity seg)"
      by (simp add: prior_capacity_def)
    from True IH c1 p1 show ?thesis
      by (simp add: contributions_def)
  next
    case False
    have "edge_capacity G1 u v = edge_capacity G u v"
      using add_segment_cases [OF G1] False
      by (auto simp: maps_to_def edge_capacity_insert_other)
    then have "prior_capacity G1 u v = prior_capacity G u v" "edge_capacity G1 u v = edge_capacity G u v"
      by (simp_all add: prior_capacity_def)
    with False IH show ?thesis
      by (simp add: contributions_def)
  qed
qed

lemma build_loop_cost:
  "build_loop sc rg G segs = Inr G' \<Longrightarrow>
     edge_cost G' u v =
       (case edge_cost G u v of
          Some k \<Rightarrow> Some k
        | None \<Rightarrow> (case filter (maps_to sc rg u v) segs of [] \<Rightarrow> None | s # _ \<Rightarrow> Some (cost_time s)))"
proof (induction segs arbitrary: G)
  case Nil
  then show ?case by (simp split: option.splits)
next
  case (Cons seg segs)
  from Cons.prems obtain G1 where G1: "add_segment sc rg G seg = Inr G1"
    and rest: "build_loop sc rg G1 segs = Inr G'"
    by (auto split: sum.splits)
  note IH = Cons.IH [OF rest]
  show ?case
  proof (cases "maps_to sc rg u v seg")
    case True
    then have eo: "edge_of sc rg seg = Inr (Some (u, v))" by (simp add: maps_to_def)
    with G1 have G1_eq: "G1 = insert_edge G u v (resolve_capacity (capacity seg)) (cost_time seg)"
      by (simp add: add_segment_def)
    have "edge_cost G1 u v = (case edge_cost G u v of None \<Rightarrow> Some (cost_time seg) | Some k0 \<Rightarrow> Some k0)"
      unfolding G1_eq by (rule edge_cost_insert_same)
    with True IH show ?thesis
      by (simp split: option.splits)
  next
    case False
    have "edge_cost G1 u v = edge_cost G u v"
      using add_segment_cases [OF G1] False
      by (auto simp: maps_to_def edge_cost_insert_other)
    with False IH show ?thesis
      by (simp split: option.splits)
  qed
qed


section \<open>Results on the graph builder\<close>

text \<open>
  C1 (as amended). A segment that is included contributes its own capacity to its edge
  when that capacity is present and not zero, whatever its sign, and exactly 1800 when
  the capacity is absent or zero: after the step the edge carries what it carried before
  plus that amount.
\<close>

theorem capacity_contribution:
  assumes "edge_of scenario region seg = Inr (Some (u, v))"
  shows "\<exists>G'. add_segment scenario region G seg = Inr G' \<and>
           edge_capacity G' u v =
             Some (prior_capacity G u v +
                   (if capacity seg = None \<or> capacity seg = Some 0 then 1800
                    else the (capacity seg)))"
proof -
  have "resolve_capacity (capacity seg) =
          (if capacity seg = None \<or> capacity seg = Some 0 then 1800 else the (capacity seg))"
    by (simp add: resolve_capacity_def split: option.splits)
  with assms show ?thesis
    by (simp add: add_segment_def edge_capacity_insert_same)
qed

theorem capacity_contribution_witness:
  "\<exists>G'. add_segment ''baseline'' ''Tampa Bay'' empty_graph
           \<lparr>source = Some 1, target = Some 2, capacity = Some 0, cost_time = None,
            geom = NoGeometry, road_name = None\<rparr> = Inr G' \<and>
         edge_capacity G' 1 2 = Some 1800"
  using capacity_contribution [of "''baseline''" "''Tampa Bay''"
      "\<lparr>source = Some 1, target = Some 2, capacity = Some 0, cost_time = None,
        geom = NoGeometry, road_name = None\<rparr>" 1 2 empty_graph]
  by (simp add: edge_of_def orient_def prior_capacity_def edge_capacity_def empty_graph_def)

text \<open>
  C1 (as stated) fails: a segment with capacity -5 puts -5 on its edge, where the
  specification's rule gives 1800.
\<close>

theorem negative_capacity_counterexample:
  "generate_network_graph
     [\<lparr>source = Some 1, target = Some 2, capacity = Some (- 5), cost_time = None,
       geom = NoGeometry, road_name = None\<rparr>] ''baseline'' ''Tampa Bay''
     = Inr \<lparr>nodes = [1, 2], edges = [\<lparr>eu = 1, ev = 2, cap = - 5, cost = None\<rparr>]\<rparr>
   \<and> spec_capacity (Some (- 5)) = 1800"
  by (simp add: generate_network_graph_def add_segment_def edge_of_def orient_def
      insert_edge_def has_edge_def add_edge_def add_node_def resolve_capacity_def
      empty_graph_def spec_capacity_def)

text \<open>
  C2 (as amended). The graph returned has at most one edge per ordered pair, and the
  capacity of the edge \<open>(u, v)\<close> is the sum, over the segments whose edge goes to
  \<open>(u, v)\<close> after any reversal, of 1800 for a segment whose capacity is absent or zero
  and of the segment's own capacity otherwise, whatever its sign; there is no such edge
  when there is no such segment.
\<close>

theorem summed_capacity:
  assumes "generate_network_graph segments scenario region = Inr G"
  shows "distinct (map edge_key (edges G)) \<and>
         edge_capacity G u v =
           (if filter (maps_to scenario region u v) segments = [] then None
            else Some (sum_list
                   (map (\<lambda>seg. if capacity seg = None \<or> capacity seg = Some 0 then 1800
                               else the (capacity seg))
                      (filter (maps_to scenario region u v) segments))))"
proof -
  from assms have loop: "build_loop scenario region empty_graph segments = Inr G"
    by (simp add: generate_network_graph_def)
  have "distinct (map edge_key (edges empty_graph))"
    by (simp add: empty_graph_def)
  with loop have d: "distinct (map edge_key (edges G))"
    by (rule build_loop_distinct)
  have r: "\<And>seg. resolve_capacity (capacity seg) =
             (if capacity seg = None \<or> capacity seg = Some 0 then 1800 else the (capacity seg))"
    by (simp add: resolve_capacity_def split: option.splits)
  have "edge_capacity empty_graph u v = None" "prior_capacity empty_graph u v = 0"
    by (simp_all add: prior_capacity_def edge_capacity_def empty_graph_def)
  with build_loop_capacity [OF loop, of u v] d show ?thesis
    by (simp add: contributions_def r)
qed

theorem summed_capacity_witness:
  "distinct (map edge_key [\<lparr>eu = 1, ev = 2, cap = 5395, cost = Some 3\<rparr>]) \<and>
   edge_capacity \<lparr>nodes = [1, 2], edges = [\<lparr>eu = 1, ev = 2, cap = 5395, cost = Some 3\<rparr>]\<rparr> 1 2
     = Some (3600 + 1800 + - 5)"
proof -
  let ?a = "\<lparr>source = Some 1, target = Some 2, capacity = Some 3600, cost_time = Some 3,
             geom = NoGeometry, road_name = None\<rparr>"
  let ?b = "\<lparr>source = Some 1, target = Some 2, capacity = None, cost_time = Some 7,
             geom = NoGeometry, road_name = None\<rparr>"
  let ?c = "\<lparr>source = Some 1, target = Some 2, capacity = Some (- 5), cost_time = None,
             geom = NoGeometry, road_name = None\<rparr>"
  let ?G = "\<lparr>nodes = [1, 2], edges = [\<lparr>eu = 1, ev = 2, cap = 5395, cost = Some 3\<rparr>]\<rparr>"
  have built: "generate_network_graph [?a, ?b, ?c] ''baseline'' ''Tampa Bay'' = Inr ?G"
    by (simp add: generate_network_graph_def add_segment_def edge_of_def orient_def
        insert_edge_def has_edge_def add_edge_def add_capacity_def add_node_def
        resolve_capacity_def empty_graph_def is_edge_def)
  show ?thesis
    using summed_capacity [OF built, of 1 2]
    by (simp add: maps_to_def edge_of_def orient_def)
qed

text \<open>
  C2 (as stated) fails: two segments from 1 to 2 with capacities -5 and 100 give an
  edge of capacity 95, where the capacities defaulted by the specification's rule sum
  to 1900.
\<close>

theorem negative_capacity_sum_counterexample:
  "generate_network_graph
     [\<lparr>source = Some 1, target = Some 2, capacity = Some (- 5), cost_time = None,
       geom = NoGeometry, road_name = None\<rparr>,
      \<lparr>source = Some 1, target = Some 2, capacity = Some 100, cost_time = None,
       geom = NoGeometry, road_name = None\<rparr>] ''baseline'' ''Tampa Bay''
     = Inr \<lparr>nodes = [1, 2], edges = [\<lparr>eu = 1, ev = 2, cap = 95, cost = None\<rparr>]\<rparr>
   \<and> spec_capacity (Some (- 5)) + spec_capacity (Some 100) = 1900"
  by (simp add: generate_network_graph_def add_segment_def edge_of_def orient_def
      insert_edge_def has_edge_def add_edge_def add_capacity_def add_node_def
      resolve_capacity_def empty_graph_def is_edge_def spec_capacity_def)



lemma edge_of_ok_iff:
  "(\<exists>p. edge_of scenario region seg = Inr p)
     \<longleftrightarrow> (reversal_eligible scenario seg \<longrightarrow> geometry_usable (geom seg))"
  by (auto simp: edge_of_def orient_def reversal_eligible_def geometry_usable_def load_coords_def
      Let_def split: option.splits geometry.splits list.splits sum.splits)

lemma build_loop_ok_iff:
  "(\<exists>G'. build_loop scenario region G segs = Inr G')
     \<longleftrightarrow> (\<forall>seg\<in>set segs. \<exists>p. edge_of scenario region seg = Inr p)"
proof (induction segs arbitrary: G)
  case Nil
  then show ?case by simp
next
  case (Cons seg segs)
  show ?case
  proof (cases "edge_of scenario region seg")
    case (Inl e)
    then show ?thesis by (simp add: add_segment_def)
  next
    case (Inr p)
    then obtain G1 where "add_segment scenario region G seg = Inr G1"
      by (cases p) (auto simp: add_segment_def)
    with Inr Cons.IH [of G1] show ?thesis by simp
  qed
qed

text \<open>
  C4 (as amended). The builder returns a graph exactly when every segment the direction
  logic looks at has a usable geometry: absent, or a line with at least one coordinate.
  A segment with absent geometry and both endpoints keeps the orientation
  \<open>(source, target)\<close>, also when it is reversal-eligible under contraflow.
\<close>

theorem geometry_errors_exactly:
  "((\<exists>G. generate_network_graph segments scenario region = Inr G) \<longleftrightarrow>
      (\<forall>seg\<in>set segments. reversal_eligible scenario seg \<longrightarrow> geometry_usable (geom seg))) \<and>
   (geom seg = NoGeometry \<and> source seg = Some u \<and> target seg = Some v \<longrightarrow>
      edge_of scenario region seg = Inr (Some (u, v)))"
proof -
  have "geom seg = NoGeometry \<and> source seg = Some u \<and> target seg = Some v \<longrightarrow>
      edge_of scenario region seg = Inr (Some (u, v))"
    by (simp add: edge_of_def orient_def load_coords_def split: option.splits)
  then show ?thesis
    by (simp add: generate_network_graph_def build_loop_ok_iff edge_of_ok_iff)
qed

theorem geometry_errors_exactly_witness:
  "(\<exists>G. generate_network_graph
           [\<lparr>source = Some 1, target = Some 2, capacity = Some 3600, cost_time = Some 3,
             geom = NoGeometry, road_name = Some ''MAJOR HWY 75''\<rparr>] ''contraflow'' ''Tampa Bay''
         = Inr G) \<and>
   edge_of ''contraflow'' ''Tampa Bay''
     \<lparr>source = Some 1, target = Some 2, capacity = Some 3600, cost_time = Some 3,
      geom = NoGeometry, road_name = Some ''MAJOR HWY 75''\<rparr> = Inr (Some (1, 2))"
  using geometry_errors_exactly [of
      "[\<lparr>source = Some 1, target = Some 2, capacity = Some 3600, cost_time = Some 3,
         geom = NoGeometry, road_name = Some ''MAJOR HWY 75''\<rparr>]" "''contraflow''" "''Tampa Bay''"
      "\<lparr>source = Some 1, target = Some 2, capacity = Some 3600, cost_time = Some 3,
        geom = NoGeometry, road_name = Some ''MAJOR HWY 75''\<rparr>" 1 2]
  by (simp add: geometry_usable_def)

text \<open>
  C4 (as stated) fails: a reversal-eligible segment whose geometry has an empty
  coordinate sequence makes the builder raise under contraflow.
\<close>

theorem empty_coordinates_counterexample:
  "generate_network_graph
     [\<lparr>source = Some 1, target = Some 2, capacity = Some 3600, cost_time = Some 3,
       geom = LineString [], road_name = Some ''MAJOR HWY 75''\<rparr>] ''contraflow'' ''Tampa Bay''
     = Inl IndexError"
  by (simp add: generate_network_graph_def add_segment_def edge_of_def orient_def
      load_coords_def upper_def upper_char_def)

text \<open>
  C9. When a segment merges into an existing edge \<open>(u, v)\<close>, the nodes, the list of
  edges with their endpoints and costs, and the capacity of every other edge stay as
  they were; only the capacity of \<open>(u, v)\<close> grows. In the graph returned, the cost of
  an edge is the travel cost of the first segment that went to it.
\<close>

theorem merge_keeps_first_cost:
  "(has_edge G u v \<and> edge_of scenario region seg = Inr (Some (u, v)) \<longrightarrow>
      (\<exists>G'. add_segment scenario region G seg = Inr G' \<and>
             nodes G' = nodes G \<and>
             map (\<lambda>e. (eu e, ev e, cost e)) (edges G') = map (\<lambda>e. (eu e, ev e, cost e)) (edges G) \<and>
             edge_capacity G' u v = Some (prior_capacity G u v + resolve_capacity (capacity seg)) \<and>
             (\<forall>u' v'. (u', v') \<noteq> (u, v) \<longrightarrow> edge_capacity G' u' v' = edge_capacity G u' v'))) \<and>
   (generate_network_graph segments scenario region = Inr Gf \<longrightarrow>
      edge_cost Gf u v =
        (case filter (maps_to scenario region u v) segments of
           [] \<Rightarrow> None
         | first # later \<Rightarrow> Some (cost_time first)))"
proof (intro conjI impI)
  assume a: "has_edge G u v \<and> edge_of scenario region seg = Inr (Some (u, v))"
  let ?c = "resolve_capacity (capacity seg)"
  let ?G' = "insert_edge G u v ?c (cost_time seg)"
  from a have step: "add_segment scenario region G seg = Inr ?G'"
    by (simp add: add_segment_def)
  from a have G': "?G' = add_capacity G u v ?c"
    by (simp add: insert_edge_def)
  have "nodes ?G' = nodes G"
    unfolding G' by (simp add: add_capacity_def)
  moreover have "map (\<lambda>e. (eu e, ev e, cost e)) (edges ?G') = map (\<lambda>e. (eu e, ev e, cost e)) (edges G)"
    unfolding G' by (simp add: add_capacity_def)
  moreover have "edge_capacity ?G' u v = Some (prior_capacity G u v + ?c)"
    by (rule edge_capacity_insert_same)
  moreover have "\<forall>u' v'. (u', v') \<noteq> (u, v) \<longrightarrow> edge_capacity ?G' u' v' = edge_capacity G u' v'"
    using edge_capacity_insert_other by blast
  ultimately show "\<exists>G'. add_segment scenario region G seg = Inr G' \<and>
             nodes G' = nodes G \<and>
             map (\<lambda>e. (eu e, ev e, cost e)) (edges G') = map (\<lambda>e. (eu e, ev e, cost e)) (edges G) \<and>
             edge_capacity G' u v = Some (prior_capacity G u v + resolve_capacity (capacity seg)) \<and>
             (\<forall>u' v'. (u', v') \<noteq> (u, v) \<longrightarrow> edge_capacity G' u' v' = edge_capacity G u' v')"
    using step by blast
next
  assume "generate_network_graph segments scenario region = Inr Gf"
  then have loop: "build_loop scenario region empty_graph segments = Inr Gf"
    by (simp add: generate_network_graph_def)
  have "edge_cost empty_graph u v = None"
    by (simp add: edge_cost_def empty_graph_def)
  with build_loop_cost [OF loop, of u v]
  show "edge_cost Gf u v =
        (case filter (maps_to scenario region u v) segments of
           [] \<Rightarrow> None
         | first # later \<Rightarrow> Some (cost_time first))"
    by simp
qed

theorem merge_keeps_first_cost_witness:
  "edge_cost \<lparr>nodes = [1, 2], edges = [\<lparr>eu = 1, ev = 2, cap = 5400, cost = Some 3\<rparr>]\<rparr> 1 2
     = Some (Some 3) \<and>
   (\<exists>G'. add_segment ''baseline'' ''Tampa Bay''
            \<lparr>nodes = [1, 2], edges = [\<lparr>eu = 1, ev = 2, cap = 3600, cost = Some 3\<rparr>]\<rparr>
            \<lparr>source = Some 1, target = Some 2, capacity = Some 1800, cost_time = Some 7,
             geom = NoGeometry, road_name = None\<rparr> = Inr G' \<and>
          map (\<lambda>e. (eu e, ev e, cost e)) (edges G') = [(1, 2, Some 3)] \<and>
          edge_capacity G' 1 2 = Some 5400)"
proof -
  let ?a = "\<lparr>source = Some 1, target = Some 2, capacity = Some 3600, cost_time = Some 3,
             geom = NoGeometry, road_name = None\<rparr>"
  let ?b = "\<lparr>source = Some 1, target = Some 2, capacity = Some 1800, cost_time = Some 7,
             geom = NoGeometry, road_name = None\<rparr>"
  let ?G1 = "\<lparr>nodes = [1, 2], edges = [\<lparr>eu = 1, ev = 2, cap = 3600, cost = Some 3\<rparr>]\<rparr>"
  let ?G = "\<lparr>nodes = [1, 2], edges = [\<lparr>eu = 1, ev = 2, cap = 5400, cost = Some 3\<rparr>]\<rparr>"
  have built: "generate_network_graph [?a, ?b] ''baseline'' ''Tampa Bay'' = Inr ?G"
    by (simp add: generate_network_graph_def add_segment_def edge_of_def orient_def
        insert_edge_def has_edge_def add_edge_def add_capacity_def add_node_def
        resolve_capacity_def empty_graph_def is_edge_def)
  have h: "has_edge ?G1 1 2" by (simp add: has_edge_def is_edge_def)
  have e: "edge_of ''baseline'' ''Tampa Bay'' ?b = Inr (Some (1, 2))"
    by (simp add: edge_of_def orient_def)
  note inst = merge_keeps_first_cost [of ?G1 1 2 "''baseline''" "''Tampa Bay''" ?b "[?a, ?b]" ?G]
  from inst h e obtain G' where step: "add_segment ''baseline'' ''Tampa Bay'' ?G1 ?b = Inr G'"
    and frame: "map (\<lambda>e. (eu e, ev e, cost e)) (edges G') = map (\<lambda>e. (eu e, ev e, cost e)) (edges ?G1)"
    and c: "edge_capacity G' 1 2 = Some (prior_capacity ?G1 1 2 + resolve_capacity (capacity ?b))"
    by blast
  have "prior_capacity ?G1 1 2 + resolve_capacity (capacity ?b) = 5400"
    by (simp add: prior_capacity_def edge_capacity_def is_edge_def resolve_capacity_def)
  with c have c': "edge_capacity G' 1 2 = Some 5400" by simp
  from frame have frame': "map (\<lambda>e. (eu e, ev e, cost e)) (edges G') = [(1, 2, Some 3)]" by simp
  from inst built have "edge_cost ?G 1 2 =
      (case filter (maps_to ''baseline'' ''Tampa Bay'' 1 2) [?a, ?b] of
         [] \<Rightarrow> None | first # later \<Rightarrow> Some (cost_time first))"
    by blast
  then have "edge_cost ?G 1 2 = Some (Some 3)"
    by (simp add: maps_to_def edge_of_def orient_def)
  with step frame' c' show ?thesis by (intro conjI exI [of _ G']) simp_all
qed

section \<open>Results on the flow solver and the request\<close>

text \<open>
  C5. When source or sink is not a node of the graph, \<open>calculate_max_flow\<close> returns 0,
  whatever the library routine would do; the function has no error result.
\<close>

theorem missing_endpoint_zero_flow:
  assumes "\<not> has_node G source_node \<or> \<not> has_node G sink_node"
  shows "calculate_max_flow mf G source_node sink_node = 0"
  using assms by (auto simp: calculate_max_flow_def)

theorem missing_endpoint_zero_flow_witness:
  "\<not> has_node \<lparr>nodes = [1, 2], edges = [\<lparr>eu = 1, ev = 2, cap = 5400, cost = Some 3\<rparr>]\<rparr> 3 \<and>
   calculate_max_flow (\<lambda>G s t. Inr 5400)
     \<lparr>nodes = [1, 2], edges = [\<lparr>eu = 1, ev = 2, cap = 5400, cost = Some 3\<rparr>]\<rparr> 1 3 = 0"
  using missing_endpoint_zero_flow [of
      "\<lparr>nodes = [1, 2], edges = [\<lparr>eu = 1, ev = 2, cap = 5400, cost = Some 3\<rparr>]\<rparr>" 1 3
      "\<lambda>G s t. Inr 5400"]
  by (simp add: has_node_def)

lemma select_endpoints_404:
  "select_endpoints L G = Inl (HTTPException 404 d) \<Longrightarrow> number_of_nodes G = 0"
  by (auto simp: select_endpoints_def split: if_splits sum.splits option.splits list.splits prod.splits)

text \<open>
  C6. On a graph with zero nodes the request ends with the 404 exception, which is not
  a response; on a graph with at least one node it never ends with a 404, and a response
  is only ever returned for a graph with at least one node.
\<close>

theorem empty_graph_signalled:
  assumes "generate_network_graph segments scenario region = Inr G"
  shows "(number_of_nodes G = 0 \<longrightarrow>
            run_simulation L None segments scenario region
              = Raised (HTTPException 404 ''Graph is empty. ETL failed?'')) \<and>
         (number_of_nodes G \<noteq> 0 \<longrightarrow>
            (\<forall>d. run_simulation L None segments scenario region \<noteq> Raised (HTTPException 404 d))) \<and>
         (\<forall>r. run_simulation L None segments scenario region = Returned r \<longrightarrow>
            number_of_nodes G \<noteq> 0)"
proof (intro conjI impI allI)
  assume "number_of_nodes G = 0"
  with assms show "run_simulation L None segments scenario region
      = Raised (HTTPException 404 ''Graph is empty. ETL failed?'')"
    by (simp add: run_simulation_def select_endpoints_def)
next
  fix d assume n: "number_of_nodes G \<noteq> 0"
  show "run_simulation L None segments scenario region \<noteq> Raised (HTTPException 404 d)"
  proof
    assume "run_simulation L None segments scenario region = Raised (HTTPException 404 d)"
    with assms have "select_endpoints L G = Inl (HTTPException 404 d)"
      by (auto simp: run_simulation_def Let_def split: sum.splits prod.splits)
    with n show False by (auto dest: select_endpoints_404)
  qed
next
  fix r assume "run_simulation L None segments scenario region = Returned r"
  with assms show "number_of_nodes G \<noteq> 0"
    by (auto simp: run_simulation_def select_endpoints_def Let_def split: sum.splits prod.splits if_splits)
qed


theorem empty_graph_signalled_witness:
  "run_simulation library0 None [] ''baseline'' ''Tampa Bay''
     = Raised (HTTPException 404 ''Graph is empty. ETL failed?'') \<and>
   run_simulation library0 None
     [\<lparr>source = Some 1, target = Some 2, capacity = Some 3600, cost_time = Some 3,
       geom = NoGeometry, road_name = None\<rparr>] ''baseline'' ''Tampa Bay''
     \<noteq> Raised (HTTPException 404 ''Graph is empty. ETL failed?'')"
proof -
  let ?a = "\<lparr>source = Some 1, target = Some 2, capacity = Some 3600, cost_time = Some 3,
             geom = NoGeometry, road_name = None\<rparr>"
  let ?G = "\<lparr>nodes = [1, 2], edges = [\<lparr>eu = 1, ev = 2, cap = 3600, cost = Some 3\<rparr>]\<rparr>"
  have none: "generate_network_graph [] ''baseline'' ''Tampa Bay'' = Inr empty_graph"
    by (simp add: generate_network_graph_def)
  have one: "generate_network_graph [?a] ''baseline'' ''Tampa Bay'' = Inr ?G"
    by (simp add: generate_network_graph_def add_segment_def edge_of_def orient_def
        insert_edge_def has_edge_def add_edge_def add_node_def resolve_capacity_def
        empty_graph_def)
  show ?thesis
    using empty_graph_signalled [OF none, of library0] empty_graph_signalled [OF one, of library0]
    by (simp add: number_of_nodes_def empty_graph_def)
qed

lemma round2_close: "\<bar>round2 x - x\<bar> \<le> 1 / 200"
proof -
  define y where "y = x * 100"
  define fl where "fl = \<lfloor>y\<rfloor>"
  define k where "k = (if y - of_int fl < 1 / 2 then fl else if 1 / 2 < y - of_int fl then fl + 1
                       else if even fl then fl else fl + 1)"
  have b: "of_int fl \<le> y" "y < of_int fl + 1"
    unfolding fl_def by linarith+
  have x: "y / 100 = x" by (simp add: y_def)
  have r: "round2 x = of_int k / 100"
    by (simp add: round2_def Let_def k_def fl_def y_def)
  have "\<bar>of_int k - y\<bar> \<le> 1 / 2"
    using b by (auto simp: k_def)
  moreover have "\<bar>of_int k / 100 - y / 100\<bar> = \<bar>of_int k - y\<bar> / 100"
    by (simp add: diff_divide_distrib [symmetric])
  ultimately have "\<bar>of_int k / 100 - y / 100\<bar> \<le> 1 / 200"
    by simp
  then have "\<bar>of_int k / 100 - x\<bar> \<le> 1 / 200"
    unfolding x .
  then show ?thesis
    unfolding r .
qed

text \<open>
  C8. The clearance time is 24 when the flow is at most 0 and 1000000 divided by the
  flow otherwise, the risk is CRITICAL below 1000 and MODERATE from 1000 on; the
  response carries the clearance time rounded to two decimals (within 0.005 of it) and
  the risk. Flow 5000 gives 200 and MODERATE, flow 500 gives 2000 and CRITICAL, flow 0
  gives 24.
\<close>

theorem derived_metrics:
  "clearance_time_hours f = (if f \<le> 0 then 24 else 1000000 / f) \<and>
   gridlock_risk f = (if f < 1000 then ''CRITICAL'' else ''MODERATE'') \<and>
   round2 (clearance_time_hours 5000) = 200 \<and> gridlock_risk 5000 = ''MODERATE'' \<and>
   round2 (clearance_time_hours 500) = 2000 \<and> gridlock_risk 500 = ''CRITICAL'' \<and>
   round2 (clearance_time_hours 0) = 24 \<and>
   \<bar>round2 (clearance_time_hours f) - clearance_time_hours f\<bar> \<le> 1 / 200 \<and>
   (run_simulation L None segments scenario region = Returned r \<longrightarrow>
      r_clearance_time_hours r = round2 (clearance_time_hours (r_max_throughput_vph r)) \<and>
      r_gridlock_risk r = gridlock_risk (r_max_throughput_vph r))"
proof -
  have a: "clearance_time_hours f = (if f \<le> 0 then 24 else 1000000 / f)"
    by (simp add: clearance_time_hours_def)
  have b: "gridlock_risk f = (if f < 1000 then ''CRITICAL'' else ''MODERATE'')"
    by (simp add: gridlock_risk_def)
  have c: "round2 (clearance_time_hours 5000) = 200" "round2 (clearance_time_hours 500) = 2000"
    "round2 (clearance_time_hours 0) = 24"
    by (simp_all add: clearance_time_hours_def round2_def)
  have d: "gridlock_risk 5000 = ''MODERATE''" "gridlock_risk 500 = ''CRITICAL''"
    by (simp_all add: gridlock_risk_def)
  have e: "run_simulation L None segments scenario region = Returned r \<longrightarrow>
      r_clearance_time_hours r = round2 (clearance_time_hours (r_max_throughput_vph r)) \<and>
      r_gridlock_risk r = gridlock_risk (r_max_throughput_vph r)"
    by (auto simp: run_simulation_def Let_def split: sum.splits prod.splits)
  from a b c d e round2_close show ?thesis by blast
qed

theorem derived_metrics_witness:
  "run_simulation library0 None
     [\<lparr>source = Some 1, target = Some 2, capacity = Some 3600, cost_time = Some 3,
       geom = NoGeometry, road_name = None\<rparr>,
      \<lparr>source = Some 1, target = Some 2, capacity = Some 1800, cost_time = Some 7,
       geom = NoGeometry, road_name = None\<rparr>] ''baseline'' ''Tampa Bay''
     = Returned \<lparr>r_scenario = ''baseline'', r_max_throughput_vph = 5400,
                 r_clearance_time_hours = 18519 / 100, r_gridlock_risk = ''MODERATE'',
                 r_graph_size = (2, 1)\<rparr> \<and>
   round2 (clearance_time_hours 5400) = 18519 / 100 \<and> gridlock_risk 5400 = ''MODERATE''"
proof -
  let ?a = "\<lparr>source = Some 1, target = Some 2, capacity = Some 3600, cost_time = Some 3,
             geom = NoGeometry, road_name = None\<rparr>"
  let ?b = "\<lparr>source = Some 1, target = Some 2, capacity = Some 1800, cost_time = Some 7,
             geom = NoGeometry, road_name = None\<rparr>"
  let ?G = "\<lparr>nodes = [1, 2], edges = [\<lparr>eu = 1, ev = 2, cap = 5400, cost = Some 3\<rparr>]\<rparr>"
  let ?r = "\<lparr>r_scenario = ''baseline'', r_max_throughput_vph = 5400,
             r_clearance_time_hours = round2 (clearance_time_hours 5400),
             r_gridlock_risk = gridlock_risk 5400, r_graph_size = (2, 1)\<rparr>"
  have built: "generate_network_graph [?a, ?b] ''baseline'' ''Tampa Bay'' = Inr ?G"
    by (simp add: generate_network_graph_def add_segment_def edge_of_def orient_def
        insert_edge_def has_edge_def add_edge_def add_capacity_def add_node_def
        resolve_capacity_def empty_graph_def is_edge_def)
  have sel: "select_endpoints library0 ?G = Inr (?G, 1, 2)"
    by (simp add: select_endpoints_def library0_def number_of_nodes_def numeral_eq_Suc)
  have run: "run_simulation library0 None [?a, ?b] ''baseline'' ''Tampa Bay'' = Returned ?r"
    unfolding run_simulation_def built
    by (simp add: sel) (simp add: calculate_max_flow_def has_node_def library0_def
        number_of_nodes_def number_of_edges_def)
  have v: "round2 (clearance_time_hours 5400) = 18519 / 100"
    by (simp add: clearance_time_hours_def round2_def)
  have g: "gridlock_risk 5400 = ''MODERATE''"
    by (simp add: gridlock_risk_def)
  from derived_metrics [of 5400 library0 "[?a, ?b]" "''baseline''" "''Tampa Bay''" ?r] run v g
  show ?thesis by simp
qed


section \<open>Lemmas on flows\<close>

lemma flow_nonneg:
  assumes "is_flow G s t f" and "e \<in> set (edges G)"
  shows "0 \<le> f e"
  using assms by (auto simp: is_flow_def split: if_splits)

lemma inflow_nonneg:
  assumes "is_flow G s t f"
  shows "0 \<le> inflow G f n"
  unfolding inflow_def
  by (rule sum_list_nonneg) (auto dest: flow_nonneg [OF assms])

lemma out_capacity_alt:
  "out_capacity G n = sum_list (map (\<lambda>e. if eu e = n then cap e else 0) (edges G))"
  by (simp add: out_capacity_def sum_list_map_filter')

lemma outflow_le_out_capacity:
  assumes "is_flow G s t f" and "\<forall>e\<in>set (edges G). eu e = n \<longrightarrow> 0 \<le> cap e"
  shows "outflow G f n \<le> out_capacity G n"
  unfolding outflow_def out_capacity_alt
proof (rule sum_list_mono)
  fix e assume e: "e \<in> set (edges G)"
  from assms(1) e have "if usable e then 0 \<le> f e \<and> f e \<le> cap e else f e = 0"
    by (simp add: is_flow_def)
  with assms(2) e show "(if eu e = n then f e else 0) \<le> (if eu e = n then cap e else 0)"
    by (auto split: if_splits)
qed

lemma zero_is_flow: "is_flow G s t (\<lambda>e. 0)"
  by (simp add: is_flow_def inflow_def outflow_def usable_def)

lemma zero_net_outflow: "net_outflow G (\<lambda>e. 0) s = 0"
  by (simp add: net_outflow_def inflow_def outflow_def)

lemma max_flow_value_nonneg:
  assumes "is_max_flow_value G s t x"
  shows "0 \<le> x"
proof -
  from assms have "net_outflow G (\<lambda>e. 0) s \<le> x"
    using zero_is_flow [of G s t] by (simp add: is_max_flow_value_def)
  then show ?thesis by (simp add: zero_net_outflow)
qed

lemma max_flow_value_le_out_capacity:
  assumes "is_max_flow_value G s t x" and "\<forall>e\<in>set (edges G). eu e = s \<longrightarrow> 0 \<le> cap e"
  shows "x \<le> out_capacity G s"
proof -
  from assms(1) obtain f where f: "is_flow G s t f" and x: "net_outflow G f s = x"
    by (auto simp: is_max_flow_value_def)
  have "x \<le> outflow G f s"
    using inflow_nonneg [OF f, of s] x by (simp add: net_outflow_def)
  also have "\<dots> \<le> out_capacity G s"
    by (rule outflow_le_out_capacity [OF f assms(2)])
  finally show ?thesis .
qed

text \<open>
  Summed over a list of distinct nodes, outflow minus inflow counts each edge once for
  its tail in the list and once, negatively, for its head in the list.
\<close>

lemma node_balance:
  assumes "distinct ns"
  shows "sum_list (map (\<lambda>n. outflow G f n - inflow G f n) ns)
           = sum_list (map (\<lambda>e. f e * (of_bool (eu e \<in> set ns) - of_bool (ev e \<in> set ns)))
                        (edges G))"
  using assms
proof (induction ns)
  case Nil
  then show ?case by simp
next
  case (Cons n ns)
  have one: "outflow G f n - inflow G f n
               = sum_list (map (\<lambda>e. f e * (of_bool (eu e = n) - of_bool (ev e = n))) (edges G))"
    unfolding outflow_def inflow_def sum_list_subtractf [symmetric]
    by (rule arg_cong [where f = sum_list]) (auto simp: algebra_simps)
  have split: "\<And>e. f e * (of_bool (eu e \<in> set (n # ns)) - of_bool (ev e \<in> set (n # ns)))
                 = f e * (of_bool (eu e = n) - of_bool (ev e = n))
                   + f e * (of_bool (eu e \<in> set ns) - of_bool (ev e \<in> set ns))"
    using Cons.prems by (auto simp: algebra_simps)
  from Cons have IH: "sum_list (map (\<lambda>n. outflow G f n - inflow G f n) ns)
           = sum_list (map (\<lambda>e. f e * (of_bool (eu e \<in> set ns) - of_bool (ev e \<in> set ns)))
                        (edges G))"
    by simp
  show ?case
    unfolding split sum_list_addf
    using one IH by simp
qed

lemma sum_list_all_zero:
  assumes "\<forall>x\<in>set xs. g x = (0::real)"
  shows "sum_list (map g xs) = 0"
  using assms by (induction xs) auto

lemma sum_list_single:
  assumes "distinct ns" and "s \<in> set ns" and "\<forall>n\<in>set ns. n \<noteq> s \<longrightarrow> g n = (0::real)"
  shows "sum_list (map g ns) = g s"
  using assms
proof (induction ns)
  case Nil
  then show ?case by simp
next
  case (Cons n ns)
  show ?case
  proof (cases "n = s")
    case True
    with Cons.prems have "\<forall>m\<in>set ns. g m = 0" by auto
    then have "sum_list (map g ns) = 0"
      by (rule sum_list_all_zero)
    with True show ?thesis by simp
  next
    case False
    with Cons show ?thesis by auto
  qed
qed

lemma circulation_zero:
  assumes "is_flow G s s f"
  shows "net_outflow G f s = 0"
proof -
  let ?ns = "node_universe G s"
  have d: "distinct ?ns" and s: "s \<in> set ?ns"
    by (simp_all add: node_universe_def)
  have "\<forall>n\<in>set ?ns. n \<noteq> s \<longrightarrow> outflow G f n - inflow G f n = 0"
    using assms by (simp add: is_flow_def)
  with d s have "sum_list (map (\<lambda>n. outflow G f n - inflow G f n) ?ns) = outflow G f s - inflow G f s"
    by (rule sum_list_single)
  moreover have "sum_list (map (\<lambda>e. f e * (of_bool (eu e \<in> set ?ns) - of_bool (ev e \<in> set ?ns)))
                        (edges G)) = 0"
    by (rule sum_list_all_zero) (auto simp: node_universe_def)
  ultimately show ?thesis
    using node_balance [OF d, of G f] by (simp add: net_outflow_def)
qed

lemma unreachable_flow_nonpos:
  assumes "is_flow G s t f" and "\<not> reachable G s t"
  shows "net_outflow G f s \<le> 0"
proof -
  let ?ns = "filter (reachable G s) (node_universe G s)"
  have d: "distinct ?ns"
    by (simp add: node_universe_def)
  have s: "s \<in> set ?ns"
    by (simp add: node_universe_def reachable_def)
  have "\<forall>n\<in>set ?ns. n \<noteq> s \<longrightarrow> outflow G f n - inflow G f n = 0"
    using assms by (auto simp: is_flow_def)
  with d s have "sum_list (map (\<lambda>n. outflow G f n - inflow G f n) ?ns) = outflow G f s - inflow G f s"
    by (rule sum_list_single)
  moreover have "sum_list (map (\<lambda>e. f e * (of_bool (eu e \<in> set ?ns) - of_bool (ev e \<in> set ?ns)))
                        (edges G)) \<le> 0"
  proof (rule sum_list_nonpos)
    fix x assume "x \<in> set (map (\<lambda>e. f e * (of_bool (eu e \<in> set ?ns) - of_bool (ev e \<in> set ?ns)))
                        (edges G))"
    then obtain e where e: "e \<in> set (edges G)"
      and x: "x = f e * (of_bool (eu e \<in> set ?ns) - of_bool (ev e \<in> set ?ns))"
      by auto
    have step: "reachable G s (eu e) \<Longrightarrow> reachable G s (ev e)"
    proof -
      assume r: "reachable G s (eu e)"
      from e have "(eu e, ev e) \<in> set (map edge_key (edges G))"
        by (force simp: edge_key_def)
      with r show "reachable G s (ev e)"
        unfolding reachable_def by (rule rtrancl_into_rtrancl)
    qed
    have U: "eu e \<in> set (node_universe G s)" "ev e \<in> set (node_universe G s)"
      using e by (auto simp: node_universe_def)
    have "(of_bool (eu e \<in> set ?ns) - of_bool (ev e \<in> set ?ns) :: real) \<le> 0"
      using step U by auto
    with flow_nonneg [OF assms(1) e] show "x \<le> 0"
      unfolding x by (rule mult_nonneg_nonpos)
  qed
  ultimately show ?thesis
    using node_balance [OF d, of G f] by (simp add: net_outflow_def)
qed

lemma max_flow_value_same_node:
  assumes "is_max_flow_value G s s x"
  shows "x = 0"
  using assms circulation_zero by (auto simp: is_max_flow_value_def)

lemma max_flow_value_unreachable:
  assumes "is_max_flow_value G s t x" and "\<not> reachable G s t"
  shows "x = 0"
proof -
  from assms(1) obtain f where "is_flow G s t f" "net_outflow G f s = x"
    by (auto simp: is_max_flow_value_def)
  with assms(2) have "x \<le> 0"
    using unreachable_flow_nonpos by blast
  with max_flow_value_nonneg [OF assms(1)] show ?thesis by simp
qed


lemma out_capacity_nonneg:
  assumes "\<forall>e\<in>set (edges G). eu e = n \<longrightarrow> 0 \<le> cap e"
  shows "0 \<le> out_capacity G n"
  unfolding out_capacity_def
  by (rule sum_list_nonneg) (use assms in auto)

text \<open>
  C7 (as amended). Whenever the library routine raises or returns the maximum flow
  value, the value \<open>calculate_max_flow\<close> returns is non-negative; it is at most the sum
  of the capacities of the edges leaving the source provided none of those capacities
  is negative; and it is 0 when no directed path leads from source to sink.
\<close>

theorem max_flow_bounds:
  assumes "library_contract G s t (mf G s t)"
  shows "0 \<le> calculate_max_flow mf G s t \<and>
         ((\<forall>e\<in>set (edges G). eu e = s \<longrightarrow> 0 \<le> cap e) \<longrightarrow>
            calculate_max_flow mf G s t \<le> out_capacity G s) \<and>
         (\<not> reachable G s t \<longrightarrow> calculate_max_flow mf G s t = 0)"
proof (cases "mf G s t")
  case (Inl e)
  then have "calculate_max_flow mf G s t = 0"
    by (simp add: calculate_max_flow_def)
  then show ?thesis
    by (simp add: out_capacity_nonneg)
next
  case (Inr x)
  with assms have m: "is_max_flow_value G s t x"
    by (simp add: library_contract_def)
  have r: "calculate_max_flow mf G s t = 0 \<or> calculate_max_flow mf G s t = x"
    using Inr by (simp add: calculate_max_flow_def)
  have "0 \<le> x"
    by (rule max_flow_value_nonneg [OF m])
  moreover have "(\<forall>e\<in>set (edges G). eu e = s \<longrightarrow> 0 \<le> cap e) \<longrightarrow> x \<le> out_capacity G s"
    using max_flow_value_le_out_capacity [OF m] by blast
  moreover have "\<not> reachable G s t \<longrightarrow> x = 0"
    using max_flow_value_unreachable [OF m] by blast
  ultimately show ?thesis
    using r out_capacity_nonneg [of G s] by auto
qed

theorem max_flow_bounds_witness:
  "calculate_max_flow (\<lambda>G s t. Inr 5400)
     \<lparr>nodes = [1, 2], edges = [\<lparr>eu = 1, ev = 2, cap = 5400, cost = Some 3\<rparr>]\<rparr> 1 2
     \<le> out_capacity \<lparr>nodes = [1, 2], edges = [\<lparr>eu = 1, ev = 2, cap = 5400, cost = Some 3\<rparr>]\<rparr> 1 \<and>
   \<not> reachable \<lparr>nodes = [2, 1], edges = [\<lparr>eu = 2, ev = 1, cap = 5400, cost = Some 3\<rparr>]\<rparr> 1 2 \<and>
   calculate_max_flow (\<lambda>G s t. Inr 0)
     \<lparr>nodes = [2, 1], edges = [\<lparr>eu = 2, ev = 1, cap = 5400, cost = Some 3\<rparr>]\<rparr> 1 2 = 0"
proof -
  let ?e = "\<lparr>eu = 1, ev = 2, cap = 5400, cost = Some 3\<rparr>"
  let ?G = "\<lparr>nodes = [1, 2], edges = [?e]\<rparr>"
  let ?e' = "\<lparr>eu = 2, ev = 1, cap = 5400, cost = Some 3\<rparr>"
  let ?G' = "\<lparr>nodes = [2, 1], edges = [?e']\<rparr>"
  have flow: "is_flow ?G 1 2 (\<lambda>e. 5400)"
    by (simp add: is_flow_def usable_def inflow_def outflow_def)
  have val: "net_outflow ?G (\<lambda>e. 5400) 1 = 5400"
    by (simp add: net_outflow_def inflow_def outflow_def)
  have best: "\<forall>f. is_flow ?G 1 2 f \<longrightarrow> net_outflow ?G f 1 \<le> 5400"
    by (simp add: is_flow_def usable_def net_outflow_def inflow_def outflow_def)
  from flow val best have c: "library_contract ?G 1 2 (Inr 5400)"
    unfolding library_contract_def is_max_flow_value_def by auto
  have best': "\<forall>f. is_flow ?G' 1 2 f \<longrightarrow> net_outflow ?G' f 1 \<le> 0"
    by (simp add: is_flow_def usable_def net_outflow_def inflow_def outflow_def)
  have c': "library_contract ?G' 1 2 (Inr 0)"
    unfolding library_contract_def is_max_flow_value_def
    using zero_is_flow [of ?G' 1 2] zero_net_outflow [of ?G' 1] best' by auto
  have n: "\<not> reachable ?G' 1 2"
    by (simp add: reachable_def edge_key_def rtrancl_insert)
  have p: "\<forall>e\<in>set (edges ?G). eu e = 1 \<longrightarrow> 0 \<le> cap e"
    by simp
  from max_flow_bounds [of ?G 1 2 "\<lambda>G s t. Inr 5400"] c p
  have a: "calculate_max_flow (\<lambda>G s t. Inr 5400) ?G 1 2 \<le> out_capacity ?G 1"
    by blast
  from max_flow_bounds [of ?G' 1 2 "\<lambda>G s t. Inr 0"] c' n
  have b: "calculate_max_flow (\<lambda>G s t. Inr 0) ?G' 1 2 = 0"
    by blast
  from a b n show ?thesis by blast
qed

text \<open>
  C7 (as stated) fails on the graph built from one segment of capacity -5 (see C1):
  the capacities leaving node 1 sum to -5, so whatever the library routine does, the
  value returned is not both non-negative and at most that sum.
\<close>

theorem negative_out_capacity_counterexample:
  "has_node \<lparr>nodes = [1, 2], edges = [\<lparr>eu = 1, ev = 2, cap = - 5, cost = None\<rparr>]\<rparr> 1 \<and>
   has_node \<lparr>nodes = [1, 2], edges = [\<lparr>eu = 1, ev = 2, cap = - 5, cost = None\<rparr>]\<rparr> 2 \<and>
   out_capacity \<lparr>nodes = [1, 2], edges = [\<lparr>eu = 1, ev = 2, cap = - 5, cost = None\<rparr>]\<rparr> 1 = - 5 \<and>
   (\<forall>mf. \<not> (0 \<le> calculate_max_flow mf
                     \<lparr>nodes = [1, 2], edges = [\<lparr>eu = 1, ev = 2, cap = - 5, cost = None\<rparr>]\<rparr> 1 2 \<and>
              calculate_max_flow mf
                \<lparr>nodes = [1, 2], edges = [\<lparr>eu = 1, ev = 2, cap = - 5, cost = None\<rparr>]\<rparr> 1 2
                \<le> out_capacity
                     \<lparr>nodes = [1, 2], edges = [\<lparr>eu = 1, ev = 2, cap = - 5, cost = None\<rparr>]\<rparr> 1))"
  by (simp add: has_node_def out_capacity_def)

text \<open>
  C10. With source and sink the same node, \<open>calculate_max_flow\<close> returns 0 and has no
  error result: an exception of the library routine is mapped to 0, and a value it
  returns as the maximum flow from a node to itself can only be 0.
\<close>

theorem same_node_zero_flow:
  assumes "library_contract G s s (mf G s s)"
  shows "calculate_max_flow mf G s s = 0"
proof (cases "mf G s s")
  case (Inl e)
  then show ?thesis by (simp add: calculate_max_flow_def)
next
  case (Inr x)
  with assms have "is_max_flow_value G s s x"
    by (simp add: library_contract_def)
  then have "x = 0" by (rule max_flow_value_same_node)
  with Inr show ?thesis by (simp add: calculate_max_flow_def)
qed

theorem same_node_zero_flow_witness:
  "has_node \<lparr>nodes = [1, 2], edges = [\<lparr>eu = 1, ev = 2, cap = 5400, cost = Some 3\<rparr>]\<rparr> 1 \<and>
   calculate_max_flow (\<lambda>G s t. Inl ''source and sink are the same node'')
     \<lparr>nodes = [1, 2], edges = [\<lparr>eu = 1, ev = 2, cap = 5400, cost = Some 3\<rparr>]\<rparr> 1 1 = 0"
  using same_node_zero_flow [of
      "\<lparr>nodes = [1, 2], edges = [\<lparr>eu = 1, ev = 2, cap = 5400, cost = Some 3\<rparr>]\<rparr>" 1
      "\<lambda>G s t. Inl ''source and sink are the same node''"]
  by (simp add: library_contract_def has_node_def)


end
